theory Spec2Isabelle
  imports Main
begin

section \<open>Points in time\<close>

text \<open>
  The program holds only timezone-aware \<^verbatim>\<open>datetime\<close> values outside the two lines that
  read the result of \<^verbatim>\<open>dateparser.parse\<close>. An aware value is its wall-clock reading, in
  microseconds since 0001-01-01T00:00:00 on its own clock, and its offset from UTC, in
  microseconds. Python orders aware values by the instant they denote.
\<close>

record datetime =
  wall :: int
  utcoffset :: int

definition instant :: "datetime \<Rightarrow> int" where
  "instant d = wall d - utcoffset d"

text \<open>What \<^verbatim>\<open>dateparser.parse\<close> hands back: a naive reading, or an aware value.\<close>

datatype parsed_time = Naive int | Aware datetime

definition utc :: "int \<Rightarrow> datetime" where
  "utc w = \<lparr>wall = w, utcoffset = 0\<rparr>"

text \<open>
  \<^verbatim>\<open>if dt.tzinfo is None: dt = dt.replace(tzinfo=timezone.utc)\<close>: a naive reading keeps its
  wall clock and is declared to be UTC.
\<close>

fun assume_utc :: "parsed_time \<Rightarrow> datetime" where
  "assume_utc (Naive w) = utc w"
| "assume_utc (Aware d) = d"

text \<open>
  The calendar of \<^verbatim>\<open>datetime\<close>: proleptic Gregorian, years 1 to 9999. \<open>ymd2ord\<close> is the
  ordinal of a date, 1 for 0001-01-01.
\<close>

definition is_leap :: "int \<Rightarrow> bool" where
  "is_leap y = (y mod 4 = 0 \<and> (y mod 100 \<noteq> 0 \<or> y mod 400 = 0))"

definition days_in_month :: "int \<Rightarrow> int \<Rightarrow> int" where
  "days_in_month y m =
     (if m = 2 then (if is_leap y then 29 else 28)
      else if m = 4 \<or> m = 6 \<or> m = 9 \<or> m = 11 then 30 else 31)"

definition days_before_year :: "int \<Rightarrow> int" where
  "days_before_year y = (y - 1) * 365 + (y - 1) div 4 - (y - 1) div 100 + (y - 1) div 400"

definition days_before_month :: "int \<Rightarrow> int \<Rightarrow> int" where
  "days_before_month y m =
     [0, 31, 59, 90, 120, 151, 181, 212, 243, 273, 304, 334] ! nat (m - 1)
       + (if 2 < m \<and> is_leap y then 1 else 0)"

definition ymd2ord :: "int \<Rightarrow> int \<Rightarrow> int \<Rightarrow> int" where
  "ymd2ord y m d = days_before_year y + days_before_month y m + d"

definition usec_per_day :: int where
  "usec_per_day = 86400000000"

definition max_wall :: int where
  "max_wall = 3652059 * usec_per_day"

definition in_range :: "int \<Rightarrow> bool" where
  "in_range w = (0 \<le> w \<and> w < max_wall)"

text \<open>
  \<^verbatim>\<open>datetime(*v[:6], tzinfo=timezone.utc)\<close> on the components already cut to six. Fewer
  than three components is a TypeError, a component out of range a ValueError; both are
  \<open>None\<close> here, and the caller's \<^verbatim>\<open>except Exception\<close> handles them alike.
\<close>

definition nth_or :: "int list \<Rightarrow> nat \<Rightarrow> int \<Rightarrow> int" where
  "nth_or xs i d = (if i < length xs then xs ! i else d)"

definition civil :: "int \<Rightarrow> int \<Rightarrow> int \<Rightarrow> int \<Rightarrow> int \<Rightarrow> int \<Rightarrow> int" where
  "civil y m d h mi s = ((ymd2ord y m d - 1) * 86400 + h * 3600 + mi * 60 + s) * 1000000"

definition datetime_utc :: "int list \<Rightarrow> datetime option" where
  "datetime_utc a =
     (if length a < 3 then None
      else
        let y = a ! 0; m = a ! 1; d = a ! 2;
            h = nth_or a 3 0; mi = nth_or a 4 0; s = nth_or a 5 0
        in if 1 \<le> y \<and> y \<le> 9999 \<and> 1 \<le> m \<and> m \<le> 12
              \<and> 1 \<le> d \<and> d \<le> days_in_month y m
              \<and> 0 \<le> h \<and> h \<le> 23 \<and> 0 \<le> mi \<and> mi \<le> 59 \<and> 0 \<le> s \<and> s \<le> 59
           then Some (utc (civil y m d h mi s))
           else None)"

text \<open>
  \<^verbatim>\<open>dt.astimezone(timezone.utc)\<close> on an aware value: the same instant read on the UTC
  clock; an OverflowError (\<open>None\<close>) when that reading leaves the calendar.
\<close>

definition astimezone_utc :: "datetime \<Rightarrow> datetime option" where
  "astimezone_utc d = (if in_range (instant d) then Some (utc (instant d)) else None)"

text \<open>\<^verbatim>\<open>DELTA = timedelta(hours=24)\<close>\<close>

definition DELTA :: int where
  "DELTA = 24 * 3600 * 1000000"

section \<open>The collaborators\<close>

text \<open>
  The libraries the program calls and this repository does not contain are parameters:
  \<^item> \<open>urlopen\<close>: the bytes behind a URL, \<open>None\<close> when \<^verbatim>\<open>urlopen\<close> or \<^verbatim>\<open>read\<close> raises;
  \<^item> \<open>feedparser_parse\<close>: the entries \<^verbatim>\<open>feedparser.parse(raw).entries or []\<close>;
  \<^item> \<open>dateparser_parse\<close>: \<^verbatim>\<open>dateutil.parser.parse\<close> on a string, \<open>None\<close> when it raises;
  \<^item> \<open>isoformat\<close>: \<^verbatim>\<open>datetime.isoformat\<close>, and \<open>str_datetime\<close>: \<^verbatim>\<open>str\<close> of a datetime.
\<close>

record raw_entry =
  entry_id :: "string option"
  guid :: "string option"
  link :: "string option"
  title :: "string option"
  published :: "string option"
  updated :: "string option"
  pubDate :: "string option"
  date :: "string option"
  summary :: "string option"
  description :: "string option"
  published_parsed :: "int list option"
  updated_parsed :: "int list option"

text \<open>
  A raw entry is feedparser's dictionary: a field is \<open>None\<close> when the key is missing (for
  the two structured times also when feedparser stored \<^verbatim>\<open>None\<close>), the text fields hold
  strings and the structured times hold the components of a \<^verbatim>\<open>time.struct_time\<close>.
\<close>

record env =
  urlopen :: "string \<Rightarrow> string option"
  feedparser_parse :: "string \<Rightarrow> raw_entry list"
  dateparser_parse :: "string \<Rightarrow> parsed_time option"
  isoformat :: "datetime \<Rightarrow> string"
  str_datetime :: "datetime \<Rightarrow> string"

section \<open>Entry normalizer\<close>

text \<open>\<^verbatim>\<open>entry.get(key, default)\<close>, and the truth value Python gives a field.\<close>

definition get_default :: "'a option \<Rightarrow> 'a \<Rightarrow> 'a" where
  "get_default v d = (case v of Some x \<Rightarrow> x | None \<Rightarrow> d)"

definition truthy :: "'a list option \<Rightarrow> bool" where
  "truthy v = (case v of Some s \<Rightarrow> s \<noteq> [] | None \<Rightarrow> False)"

definition parse_entry_id :: "raw_entry \<Rightarrow> string" where
  "parse_entry_id entry =
     (if truthy (entry_id entry) then get_default (entry_id entry) []
      else if truthy (guid entry) then get_default (guid entry) []
      else if truthy (link entry) then get_default (link entry) []
      else
        let title' = get_default (title entry) [];
            pub = (if get_default (published entry) [] \<noteq> []
                   then get_default (published entry) []
                   else get_default (updated entry) [])
        in title' @ ''||'' @ pub)"

text \<open>The first loop of \<^verbatim>\<open>parse_entry_date\<close>, over the structured times.\<close>

fun from_struct :: "int list option list \<Rightarrow> datetime option" where
  "from_struct [] = None"
| "from_struct (v # vs) =
     (if truthy v then
        (case datetime_utc (take 6 (get_default v [])) of
           Some dt \<Rightarrow> Some dt
         | None \<Rightarrow> from_struct vs)
      else from_struct vs)"

text \<open>
  The body of the second loop's \<^verbatim>\<open>try\<close>: parse, declare a naive result UTC, convert to
  UTC. Any exception leaves the \<^verbatim>\<open>try\<close> without a result.
\<close>

definition parse_utc :: "env \<Rightarrow> string \<Rightarrow> datetime option" where
  "parse_utc E v =
     (case dateparser_parse E v of
        None \<Rightarrow> None
      | Some dt \<Rightarrow> astimezone_utc (assume_utc dt))"

fun from_strings :: "env \<Rightarrow> string option list \<Rightarrow> datetime option" where
  "from_strings E [] = None"
| "from_strings E (v # vs) =
     (if truthy v then
        (case parse_utc E (get_default v []) of
           Some dt \<Rightarrow> Some dt
         | None \<Rightarrow> from_strings E vs)
      else from_strings E vs)"

definition parse_entry_date :: "env \<Rightarrow> raw_entry \<Rightarrow> datetime option" where
  "parse_entry_date E entry =
     (case from_struct [published_parsed entry, updated_parsed entry] of
        Some dt \<Rightarrow> Some dt
      | None \<Rightarrow> from_strings E [published entry, updated entry, pubDate entry, date entry])"

section \<open>Seen-state store\<close>

text \<open>
  A value of the seen-state file. The program copies stored values and hands them to the
  date parser, which takes strings only; numbers that are not integers are left out.
\<close>

datatype json = JNull | JBool bool | JNum int | JStr string | JArr "json list"
  | JObj "(string \<times> json) list"

type_synonym seen = "string \<rightharpoonup> json"

text \<open>
  What a path holds. \<open>Unreadable\<close>: the path exists and \<^verbatim>\<open>open\<close> or \<^verbatim>\<open>read\<close> raises;
  \<open>Garbage\<close>: text that is not JSON; \<open>Seen\<close>: a JSON object, the only shape
  \<^verbatim>\<open>save_last_seen\<close> writes (other top-level JSON values are outside this model);
  \<open>Document\<close>: an output feed.
\<close>

record rss_item =
  x_title :: "string option"
  x_link :: "string option"
  x_guid :: "string option"
  x_pubDate :: "string option"
  x_description :: "string option"

record rss =
  channel_title :: string
  channel_link :: string
  channel_description :: string
  lastBuildDate :: string
  items :: "rss_item list"

datatype content = Unreadable | Garbage | Seen seen | Document rss

datatype error = OSError string | JSONDecodeError | KeyError string

text \<open>What the program prints, one constructor per \<^verbatim>\<open>print\<close> of the source.\<close>

datatype msg =
    FailedFetch string
  | Processing string string
  | Skipping string
  | Wrote nat string
  | NoNewItems string string
  | NoFeedsProcessed
  | Completed

text \<open>
  The world the program runs in: the files, the paths that cannot be opened for writing,
  and the lines printed so far.
\<close>

record world =
  files :: "string \<rightharpoonup> content"
  denied :: "string \<Rightarrow> bool"
  printed :: "msg list"

definition print :: "msg \<Rightarrow> world \<Rightarrow> world" where
  "print m w = w\<lparr>printed := printed w @ [m]\<rparr>"

text \<open>\<^verbatim>\<open>with open(path, 'r') as fh: return json.load(fh)\<close>, before the handler.\<close>

definition read_json :: "world \<Rightarrow> string \<Rightarrow> error + seen" where
  "read_json w path =
     (case files w path of
        None \<Rightarrow> Inl (OSError path)
      | Some Unreadable \<Rightarrow> Inl (OSError path)
      | Some Garbage \<Rightarrow> Inl JSONDecodeError
      | Some (Document d) \<Rightarrow> Inl JSONDecodeError
      | Some (Seen m) \<Rightarrow> Inr m)"

definition load_last_seen :: "world \<Rightarrow> string \<Rightarrow> error + seen" where
  "load_last_seen w path =
     (if files w path = None then Inr Map.empty
      else (case read_json w path of
              Inr m \<Rightarrow> Inr m
            | Inl e \<Rightarrow> Inr Map.empty))"

text \<open>Opening a path for writing and writing the content; the error leaves the file as it was.\<close>

definition write_file :: "string \<Rightarrow> content \<Rightarrow> world \<Rightarrow> (error + unit) \<times> world" where
  "write_file path c w =
     (if denied w path then (Inl (OSError path), w)
      else (Inr (), w\<lparr>files := (files w)(path \<mapsto> c)\<rparr>))"

definition save_last_seen :: "string \<Rightarrow> seen \<Rightarrow> world \<Rightarrow> (error + unit) \<times> world" where
  "save_last_seen path data w = write_file path (Seen data) w"

section \<open>Configuration\<close>

definition FEEDS :: "(string \<times> string) list" where
  "FEEDS = [(''bd'', ''https://evilgodfahim.github.io/bd/articles.xml''),
            (''master'', ''https://evilgodfahim.github.io/Longreads/filtered.xml'')]"

definition OUTFILES :: "(string \<times> string) list" where
  "OUTFILES = [(''bd'', ''daily_bd.xml''), (''master'', ''daily_master.xml'')]"

definition LAST_SEEN_FILES :: "(string \<times> string) list" where
  "LAST_SEEN_FILES = [(''bd'', ''last_seen_bd.json''), (''master'', ''last_seen_master.json'')]"

section \<open>Novelty classifier\<close>

text \<open>
  The \<^verbatim>\<open>try\<close> of the seen-before branch up to the comparison: the stored value must be a
  string the date parser accepts; a naive result is declared UTC. \<open>None\<close> is the handler.
\<close>

definition stored_dt :: "env \<Rightarrow> json \<Rightarrow> datetime option" where
  "stored_dt E stored_iso =
     (case stored_iso of
        JStr s \<Rightarrow> map_option assume_utc (dateparser_parse E s)
      | _ \<Rightarrow> None)"

definition is_new :: "env \<Rightarrow> seen \<Rightarrow> datetime \<Rightarrow> string \<Rightarrow> datetime option \<Rightarrow> bool" where
  "is_new E last_seen cutoff eid edate =
     (case last_seen eid of
        None \<Rightarrow>
          (case edate of
             Some d \<Rightarrow> (if instant cutoff \<le> instant d then True else False)
           | None \<Rightarrow> True)
      | Some stored_iso \<Rightarrow>
          (case stored_dt E stored_iso of
             None \<Rightarrow> False
           | Some sd \<Rightarrow>
               (case edate of
                  Some d \<Rightarrow> instant sd < instant d \<and> instant cutoff \<le> instant d
                | None \<Rightarrow> False)))"

section \<open>Feed processor\<close>

record item =
  item_id :: string
  item_title :: "string option"
  item_link :: "string option"
  item_summary :: string
  item_published :: datetime

text \<open>\<^verbatim>\<open>a or b\<close> on two optional strings with a final default.\<close>

definition or_else :: "string option \<Rightarrow> string \<Rightarrow> string" where
  "or_else v d = (if truthy v then get_default v [] else d)"

definition make_item :: "env \<Rightarrow> datetime \<Rightarrow> raw_entry \<Rightarrow> item" where
  "make_item E now e =
     \<lparr>item_id = parse_entry_id e,
      item_title = title e,
      item_link = link e,
      item_summary = or_else (summary e) (or_else (description e) []),
      item_published = get_default (parse_entry_date E e) now\<rparr>"

definition stamp :: "env \<Rightarrow> datetime \<Rightarrow> raw_entry \<Rightarrow> string" where
  "stamp E now e =
     (case parse_entry_date E e of
        Some edate \<Rightarrow> isoformat E edate
      | None \<Rightarrow> or_else (published e) (or_else (updated e) (isoformat E now)))"

text \<open>
  One turn of the loop of \<^verbatim>\<open>process_feed\<close>. The membership test reads the mapping as
  loaded, \<open>last_seen\<close>; the stamp goes to its copy, \<open>updated_last_seen\<close>.
\<close>

definition process_entry ::
  "env \<Rightarrow> datetime \<Rightarrow> seen \<Rightarrow> item list \<times> seen \<Rightarrow> raw_entry \<Rightarrow> item list \<times> seen" where
  "process_entry E now last_seen acc e =
     (let new_items = fst acc; updated_last_seen = snd acc;
          eid = parse_entry_id e;
          edate = parse_entry_date E e;
          cutoff = utc (instant now - DELTA);
          new_items' = (if is_new E last_seen cutoff eid edate
                        then new_items @ [make_item E now e] else new_items)
      in (new_items', updated_last_seen(eid \<mapsto> JStr (stamp E now e))))"

fun process_entries ::
  "env \<Rightarrow> datetime \<Rightarrow> seen \<Rightarrow> item list \<times> seen \<Rightarrow> raw_entry list \<Rightarrow> item list \<times> seen" where
  "process_entries E now last_seen acc [] = acc"
| "process_entries E now last_seen acc (e # es) =
     process_entries E now last_seen (process_entry E now last_seen acc e) es"

section \<open>Output feed builder\<close>

definition if_truthy :: "string option \<Rightarrow> string option" where
  "if_truthy v = (if truthy v then v else None)"

definition item_xml :: "env \<Rightarrow> item \<Rightarrow> rss_item" where
  "item_xml E it =
     \<lparr>x_title = if_truthy (item_title it),
      x_link = if_truthy (item_link it),
      x_guid = if_truthy (Some (item_id it)),
      x_pubDate =
        Some (case astimezone_utc (item_published it) of
                Some u \<Rightarrow> isoformat E u
              | None \<Rightarrow> str_datetime E (item_published it)),
      x_description = if_truthy (Some (item_summary it))\<rparr>"

definition build_rss_xml :: "env \<Rightarrow> string \<Rightarrow> string \<Rightarrow> string \<Rightarrow> item list \<Rightarrow> rss" where
  "build_rss_xml E title' link' build_date its =
     \<lparr>channel_title = title',
      channel_link = link',
      channel_description = ''Daily feed: '' @ title',
      lastBuildDate = build_date,
      items = map (item_xml E) its\<rparr>"

section \<open>The run of one feed, and the run driver\<close>

definition safe_fetch :: "env \<Rightarrow> string \<Rightarrow> world \<Rightarrow> string option \<times> world" where
  "safe_fetch E url w =
     (case urlopen E url of
        Some r \<Rightarrow> (Some r, w)
      | None \<Rightarrow> (None, print (FailedFetch url) w))"

text \<open>
  The two readings of the clock in one run of \<^verbatim>\<open>process_feed\<close>:
  \<^verbatim>\<open>datetime.now(timezone.utc)\<close>, as microseconds on the UTC clock, and the text of
  \<^verbatim>\<open>lastBuildDate\<close> that \<^verbatim>\<open>build_rss_xml\<close> takes from the clock on its own.
\<close>

record clock =
  now_utc :: int
  build_date :: string

text \<open>
  The result of a call is what it returns, or the exception that leaves it, and the world
  it leaves behind. \<open>and_then\<close> runs the rest of a function body after a call that did
  not raise.
\<close>

type_synonym 'a result = "(error + 'a) \<times> world"

definition and_then :: "'a result \<Rightarrow> ('a \<Rightarrow> world \<Rightarrow> 'b result) \<Rightarrow> 'b result" where
  "and_then r f = (case fst r of Inl e \<Rightarrow> (Inl e, snd r) | Inr x \<Rightarrow> f x (snd r))"

definition lookup :: "(string \<times> string) list \<Rightarrow> string \<Rightarrow> world \<Rightarrow> string result" where
  "lookup table k w =
     (case map_of table k of None \<Rightarrow> (Inl (KeyError k), w) | Some v \<Rightarrow> (Inr v, w))"

text \<open>Lines 189 to 201: both branches build a document and write it.\<close>

definition write_output ::
  "env \<Rightarrow> clock \<Rightarrow> string \<Rightarrow> string \<Rightarrow> string \<Rightarrow> item list \<Rightarrow> world \<Rightarrow> unit result" where
  "write_output E c feed_key feed_url outfn new_items w =
     (if new_items \<noteq> [] then
        and_then
          (write_file outfn
             (Document (build_rss_xml E (''daily_'' @ feed_key) feed_url (build_date c) new_items)) w)
          (\<lambda>u w'. (Inr (), print (Wrote (length new_items) outfn) w'))
      else
        and_then
          (write_file outfn
             (Document (build_rss_xml E (''daily_'' @ feed_key) feed_url (build_date c) [])) w)
          (\<lambda>u w'. (Inr (), print (NoNewItems feed_key outfn) w')))"

definition process_feed :: "env \<Rightarrow> clock \<Rightarrow> string \<Rightarrow> string \<Rightarrow> world \<Rightarrow> bool result" where
  "process_feed E c feed_key feed_url w0 =
     (let fetched = safe_fetch E feed_url (print (Processing feed_key feed_url) w0);
          w1 = snd fetched
      in (case fst fetched of
            None \<Rightarrow> (Inr False, print (Skipping feed_key) w1)
          | Some raw \<Rightarrow>
              (let entries = feedparser_parse E raw;
                   now = utc (now_utc c)
               in and_then (lookup LAST_SEEN_FILES feed_key w1) (\<lambda>last_seen_path w2.
                  and_then (load_last_seen w2 last_seen_path, w2) (\<lambda>last_seen w3.
                    (let r = process_entries E now last_seen ([], last_seen) entries;
                         new_items = fst r; updated_last_seen = snd r
                     in and_then (lookup OUTFILES feed_key w3) (\<lambda>outfn w4.
                        and_then (write_output E c feed_key feed_url outfn new_items w4) (\<lambda>u w5.
                        and_then (save_last_seen last_seen_path updated_last_seen w5) (\<lambda>u' w6.
                          (Inr True, w6))))))))))"





section \<open>The specification's reading\<close>

text \<open>
  The definitions of this section follow the words of the specification; the theorems
  below compare them with the definitions above, which follow the source.
\<close>

text \<open>"In strict precedence order, first non-empty wins."\<close>

fun first_nonempty :: "string option list \<Rightarrow> string \<Rightarrow> string" where
  "first_nonempty [] d = d"
| "first_nonempty (None # vs) d = first_nonempty vs d"
| "first_nonempty (Some s # vs) d = (if s \<noteq> [] then s else first_nonempty vs d)"

text \<open>"In strict precedence order, first success wins."\<close>

fun first_success :: "'a option list \<Rightarrow> 'a option" where
  "first_success [] = None"
| "first_success (None # vs) = first_success vs"
| "first_success (Some x # vs) = Some x"

text \<open>
  "A structured time is interpreted as UTC civil time components
  (year/month/day/hour/minute/second)."
\<close>

definition structured_time :: "int list option \<Rightarrow> datetime option" where
  "structured_time v =
     (case v of
        None \<Rightarrow> None
      | Some t \<Rightarrow> if t = [] then None else datetime_utc (take 6 t))"

text \<open>
  "A string-typed field parsed via a lenient date parser. A parsed string time that lacks
  timezone information is assumed to be UTC. All timestamps are normalized to UTC."
\<close>

definition lenient_time :: "env \<Rightarrow> string option \<Rightarrow> datetime option" where
  "lenient_time E v =
     (case v of
        None \<Rightarrow> None
      | Some s \<Rightarrow>
          if s = [] then None
          else (case dateparser_parse E s of
                  None \<Rightarrow> None
                | Some (Naive w) \<Rightarrow> astimezone_utc (utc w)
                | Some (Aware d) \<Rightarrow> astimezone_utc d))"

text \<open>The verdict of the classifier on an entry, as the loop of \<^verbatim>\<open>process_feed\<close> takes it.\<close>

definition entry_is_new :: "env \<Rightarrow> datetime \<Rightarrow> seen \<Rightarrow> raw_entry \<Rightarrow> bool" where
  "entry_is_new E now last_seen e =
     is_new E last_seen (utc (instant now - DELTA)) (parse_entry_id e) (parse_entry_date E e)"

text \<open>
  The item an entry gives in the output document, field by field: title and link when the
  entry has a non-empty one, the identity as guid, the ISO form of the resolved timestamp
  or else of \<open>now\<close> as pubDate, and the first non-empty of summary and description.
\<close>

definition item_of_entry :: "env \<Rightarrow> datetime \<Rightarrow> raw_entry \<Rightarrow> rss_item" where
  "item_of_entry E now e =
     \<lparr>x_title = (case title e of None \<Rightarrow> None | Some t \<Rightarrow> if t = [] then None else Some t),
      x_link = (case link e of None \<Rightarrow> None | Some l \<Rightarrow> if l = [] then None else Some l),
      x_guid = Some (parse_entry_id e),
      x_pubDate = Some (case parse_entry_date E e of
                          Some d \<Rightarrow> isoformat E d
                        | None \<Rightarrow> isoformat E now),
      x_description = (let s = first_nonempty [summary e, description e] []
                       in if s = [] then None else Some s)\<rparr>"



section \<open>Sample data\<close>

definition blank :: raw_entry where
  "blank = \<lparr>entry_id = None, guid = None, link = None, title = None, published = None,
            updated = None, pubDate = None, date = None, summary = None, description = None,
            published_parsed = None, updated_parsed = None\<rparr>"

text \<open>2024-01-01T12:00:00Z, 2024-01-01T06:00:00Z, and 2024-01-02T00:00:00Z with the second after.\<close>

definition t_noon :: datetime where "t_noon = utc 63839707200000000"
definition t_six :: datetime where "t_six = utc 63839685600000000"
definition t_now :: datetime where "t_now = utc 63839750400000000"
definition t_later :: datetime where "t_later = utc 63839750401000000"

text \<open>
  The values of \<^verbatim>\<open>isoformat\<close>, \<^verbatim>\<open>str\<close> and \<^verbatim>\<open>dateutil.parser.parse\<close> at the points the
  samples use.
\<close>

definition sample_isoformat :: "datetime \<Rightarrow> string" where
  "sample_isoformat d =
     (if d = t_noon then ''2024-01-01T12:00:00+00:00''
      else if d = t_six then ''2024-01-01T06:00:00+00:00''
      else if d = t_now then ''2024-01-02T00:00:00+00:00''
      else if d = t_later then ''2024-01-02T00:00:01+00:00''
      else ''?'')"

definition sample_str :: "datetime \<Rightarrow> string" where
  "sample_str d =
     (if d = t_noon then ''2024-01-01 12:00:00+00:00''
      else if d = t_six then ''2024-01-01 06:00:00+00:00''
      else if d = t_now then ''2024-01-02 00:00:00+00:00''
      else if d = t_later then ''2024-01-02 00:00:01+00:00''
      else ''?'')"

definition sample_parse :: "string \<Rightarrow> parsed_time option" where
  "sample_parse s =
     (if s = ''2024-01-01T12:00:00+00:00'' then Some (Aware t_noon)
      else if s = ''2024-01-01T06:00:00+00:00'' then Some (Aware t_six)
      else if s = ''2024-01-02T00:00:00+00:00'' then Some (Aware t_now)
      else if s = ''2024-01-02T00:00:01+00:00'' then Some (Aware t_later)
      else if s = ''2024-01-01 12:00:00'' then Some (Naive 63839707200000000)
      else if s = ''2024-01-01T14:00:00+02:00''
        then Some (Aware \<lparr>wall = 63839714400000000, utcoffset = 7200000000\<rparr>)
      else None)"

text \<open>Two entries under one identifier, the later one dated earlier, and an entry with a title only.\<close>

definition entry_a :: raw_entry where
  "entry_a = blank\<lparr>entry_id := Some ''urn:a'', title := Some ''A'',
                   published_parsed := Some [2024, 1, 1, 12, 0, 0, 0, 1, 0]\<rparr>"

definition entry_b :: raw_entry where
  "entry_b = blank\<lparr>entry_id := Some ''urn:a'', title := Some ''A'',
                   published_parsed := Some [2024, 1, 1, 6, 0, 0, 0, 1, 0]\<rparr>"

definition entry_t :: raw_entry where
  "entry_t = blank\<lparr>title := Some ''T''\<rparr>"

definition sample_env :: env where
  "sample_env =
     \<lparr>urlopen = (\<lambda>url. if url = ''https://evilgodfahim.github.io/bd/articles.xml''
                          then Some ''bd''
                        else if url = ''https://evilgodfahim.github.io/Longreads/filtered.xml''
                          then Some ''master''
                        else None),
      feedparser_parse = (\<lambda>raw. if raw = ''bd'' then [entry_a, entry_b, entry_t] else []),
      dateparser_parse = sample_parse,
      isoformat = sample_isoformat,
      str_datetime = sample_str\<rparr>"

definition sample_clock :: clock where
  "sample_clock = \<lparr>now_utc = 63839750400000000, build_date = ''2024-01-02T00:00:00+00:00''\<rparr>"

definition later_clock :: clock where
  "later_clock = \<lparr>now_utc = 63839750401000000, build_date = ''2024-01-02T00:00:01+00:00''\<rparr>"

definition fresh_world :: world where
  "fresh_world = \<lparr>files = Map.empty, denied = (\<lambda>p. False), printed = []\<rparr>"

definition bd_url :: string where
  "bd_url = ''https://evilgodfahim.github.io/bd/articles.xml''"

definition master_url :: string where
  "master_url = ''https://evilgodfahim.github.io/Longreads/filtered.xml''"


definition garbage_world :: world where
  "garbage_world = fresh_world\<lparr>files := [''last_seen_bd.json'' \<mapsto> Garbage]\<rparr>"

definition unreadable_world :: world where
  "unreadable_world = fresh_world\<lparr>files := [''last_seen_bd.json'' \<mapsto> Unreadable]\<rparr>"

text \<open>The collaborators of the samples, on a feed whose identities are distinct.\<close>

definition distinct_env :: env where
  "distinct_env =
     sample_env\<lparr>feedparser_parse := (\<lambda>raw. if raw = ''bd'' then [entry_a, entry_t] else [])\<rparr>"





text \<open>No configured path refuses a write.\<close>

definition writable :: "world \<Rightarrow> bool" where
  "writable w = list_all (\<lambda>p. \<not> denied w p) (map snd OUTFILES @ map snd LAST_SEEN_FILES)"


section \<open>What one run works with\<close>

text \<open>
  The mapping \<^verbatim>\<open>process_feed\<close> has in \<^verbatim>\<open>last_seen\<close> after line 135, the entries it walks
  through and the items it has collected at line 189.
\<close>

definition loaded :: "world \<Rightarrow> string \<Rightarrow> seen" where
  "loaded w path = (case load_last_seen w path of Inr m \<Rightarrow> m | Inl e \<Rightarrow> Map.empty)"

definition entries_of :: "env \<Rightarrow> string \<Rightarrow> raw_entry list" where
  "entries_of E url = (case urlopen E url of Some raw \<Rightarrow> feedparser_parse E raw | None \<Rightarrow> [])"

definition novel :: "env \<Rightarrow> clock \<Rightarrow> world \<Rightarrow> string \<Rightarrow> string \<Rightarrow> raw_entry list" where
  "novel E c w path url =
     filter (entry_is_new E (utc (now_utc c)) (loaded w path)) (entries_of E url)"


section \<open>Properties of the entry normalizer\<close>

lemma from_struct_first_success: "from_struct vs = first_success (map structured_time vs)"
  by (induction vs) (auto simp: structured_time_def truthy_def get_default_def split: option.splits)

lemma from_strings_first_success: "from_strings E vs = first_success (map (lenient_time E) vs)"
  by (induction vs)
     (auto simp: lenient_time_def parse_utc_def truthy_def get_default_def
           split: option.splits parsed_time.splits)

lemma first_success_append:
  "first_success (xs @ ys) = (case first_success xs of Some x \<Rightarrow> Some x | None \<Rightarrow> first_success ys)"
  by (induction xs rule: first_success.induct) auto

lemma datetime_utc_offset: "datetime_utc a = Some d \<Longrightarrow> utcoffset d = 0"
  by (auto simp: datetime_utc_def utc_def Let_def split: if_splits)

lemma astimezone_utc_offset: "astimezone_utc x = Some d \<Longrightarrow> utcoffset d = 0"
  by (auto simp: astimezone_utc_def utc_def split: if_splits)

lemma from_struct_offset: "from_struct vs = Some d \<Longrightarrow> utcoffset d = 0"
  by (induction vs) (auto split: if_splits option.splits dest: datetime_utc_offset)

lemma from_strings_offset: "from_strings E vs = Some d \<Longrightarrow> utcoffset d = 0"
  by (induction vs) (auto simp: parse_utc_def split: if_splits option.splits dest: astimezone_utc_offset)

lemma parse_entry_date_offset:
  assumes "parse_entry_date E e = Some d"
  shows "utcoffset d = 0"
proof (cases "from_struct [published_parsed e, updated_parsed e]")
  case None
  with assms have "from_strings E [published e, updated e, pubDate e, date e] = Some d"
    unfolding parse_entry_date_def by simp
  then show ?thesis by (rule from_strings_offset)
next
  case (Some x)
  with assms have "from_struct [published_parsed e, updated_parsed e] = Some d"
    unfolding parse_entry_date_def by simp
  then show ?thesis by (rule from_struct_offset)
qed

lemma entry_a_date: "parse_entry_date E entry_a = Some t_noon"
  by (simp add: parse_entry_date_def entry_a_def blank_def truthy_def get_default_def
        datetime_utc_def nth_or_def civil_def ymd2ord_def days_before_year_def
        days_before_month_def days_in_month_def is_leap_def t_noon_def)

lemma entry_b_date: "parse_entry_date E entry_b = Some t_six"
  by (simp add: parse_entry_date_def entry_b_def blank_def truthy_def get_default_def
        datetime_utc_def nth_or_def civil_def ymd2ord_def days_before_year_def
        days_before_month_def days_in_month_def is_leap_def t_six_def)

lemma entry_t_date: "parse_entry_date E entry_t = None"
  by (simp add: parse_entry_date_def entry_t_def blank_def truthy_def)

lemma sample_ids:
  "parse_entry_id entry_a = ''urn:a''" "parse_entry_id entry_b = ''urn:a''"
  "parse_entry_id entry_t = ''T||''"
  by (simp_all add: parse_entry_id_def entry_a_def entry_b_def entry_t_def blank_def
        truthy_def get_default_def)

text \<open>
  Claim C3. For every raw entry, \<open>parse_entry_id\<close> is the first non-empty of the id field,
  the guid field and the link, and otherwise the title joined by \<open>||\<close> to the first
  non-empty of the published and updated strings. It is a function of the entry alone, so
  repeated calls agree.
\<close>

theorem parse_entry_id_precedence:
  "parse_entry_id e =
     first_nonempty [entry_id e, guid e, link e]
       (first_nonempty [title e] [] @ ''||'' @ first_nonempty [published e, updated e] [])"
  by (cases "entry_id e"; cases "guid e"; cases "link e"; cases "title e";
      cases "published e"; cases "updated e")
     (simp_all add: parse_entry_id_def truthy_def get_default_def)

theorem parse_entry_id_precedence_witness:
  "parse_entry_id entry_t = ''T||'' \<and> parse_entry_id entry_a = ''urn:a''
   \<and> parse_entry_id (blank\<lparr>entry_id := Some [], guid := Some ''g'', link := Some ''l''\<rparr>) = ''g''
   \<and> parse_entry_id (blank\<lparr>link := Some ''l'', title := Some ''t'', updated := Some ''u''\<rparr>) = ''l''
   \<and> parse_entry_id (blank\<lparr>title := Some ''t'', published := Some [], updated := Some ''u''\<rparr>) = ''t||u''"
  using parse_entry_id_precedence [of entry_t] parse_entry_id_precedence [of entry_a]
    parse_entry_id_precedence [of "blank\<lparr>entry_id := Some [], guid := Some ''g'', link := Some ''l''\<rparr>"]
    parse_entry_id_precedence [of "blank\<lparr>link := Some ''l'', title := Some ''t'', updated := Some ''u''\<rparr>"]
    parse_entry_id_precedence [of "blank\<lparr>title := Some ''t'', published := Some [], updated := Some ''u''\<rparr>"]
  by (simp add: entry_t_def entry_a_def blank_def)

text \<open>
  Claim C4. For every raw entry, \<open>parse_entry_date\<close> is the first success among the
  structured published time, the structured updated time and the strings published,
  updated, pubDate and date read by the lenient parser; a result is always on the UTC
  clock; a structured time is its civil components read as UTC; a parsed string without
  timezone is taken as UTC, one with a timezone keeps its instant; when nothing succeeds
  the result is \<open>None\<close>.
\<close>

theorem parse_entry_date_precedence:
  "parse_entry_date E e =
     first_success
       [structured_time (published_parsed e), structured_time (updated_parsed e),
        lenient_time E (published e), lenient_time E (updated e),
        lenient_time E (pubDate e), lenient_time E (date e)]
   \<and> (\<forall>d. parse_entry_date E e = Some d \<longrightarrow> utcoffset d = 0)
   \<and> (\<forall>y m d h mi s rest dt.
         structured_time (Some (y # m # d # h # mi # s # rest)) = Some dt
           \<longrightarrow> dt = utc (civil y m d h mi s))
   \<and> (\<forall>s w. s \<noteq> [] \<longrightarrow> dateparser_parse E s = Some (Naive w) \<longrightarrow> in_range w
           \<longrightarrow> lenient_time E (Some s) = Some (utc w))
   \<and> (\<forall>s a. s \<noteq> [] \<longrightarrow> dateparser_parse E s = Some (Aware a) \<longrightarrow> in_range (instant a)
           \<longrightarrow> lenient_time E (Some s) = Some (utc (instant a)))"
proof (intro conjI allI impI)
  show "parse_entry_date E e =
     first_success
       [structured_time (published_parsed e), structured_time (updated_parsed e),
        lenient_time E (published e), lenient_time E (updated e),
        lenient_time E (pubDate e), lenient_time E (date e)]"
    using first_success_append [of "map structured_time [published_parsed e, updated_parsed e]"
        "map (lenient_time E) [published e, updated e, pubDate e, date e]"]
    by (simp add: parse_entry_date_def from_struct_first_success from_strings_first_success
          split: option.splits)
next
  fix d assume "parse_entry_date E e = Some d"
  then show "utcoffset d = 0" by (rule parse_entry_date_offset)
next
  fix y m d h mi s rest dt
  assume "structured_time (Some (y # m # d # h # mi # s # rest)) = Some dt"
  then show "dt = utc (civil y m d h mi s)"
    by (simp add: structured_time_def datetime_utc_def nth_or_def split: if_splits)
next
  fix s w assume "s \<noteq> []" "dateparser_parse E s = Some (Naive w)" "in_range w"
  then show "lenient_time E (Some s) = Some (utc w)"
    by (simp add: lenient_time_def astimezone_utc_def instant_def utc_def)
next
  fix s a assume "s \<noteq> []" "dateparser_parse E s = Some (Aware a)" "in_range (instant a)"
  then show "lenient_time E (Some s) = Some (utc (instant a))"
    by (simp add: lenient_time_def astimezone_utc_def)
qed

lemma sample_env_sel [simp]:
  "dateparser_parse sample_env = sample_parse" "isoformat sample_env = sample_isoformat"
  "str_datetime sample_env = sample_str"
  by (simp_all add: sample_env_def)

lemma civil_noon: "civil 2024 1 1 12 0 0 = 63839707200000000"
  by (simp add: civil_def ymd2ord_def days_before_year_def days_before_month_def)

lemma structured_noon: "structured_time (Some [2024, 1, 1, 12, 0, 0, 0, 1, 0]) = Some t_noon"
  by (simp add: structured_time_def datetime_utc_def nth_or_def days_in_month_def civil_noon
        t_noon_def)

lemma structured_feb30: "structured_time (Some [2024, 2, 30, 0, 0, 0, 0, 1, 0]) = None"
  by (simp add: structured_time_def datetime_utc_def nth_or_def days_in_month_def is_leap_def)

lemma in_range_noon: "in_range 63839707200000000"
  by (simp add: in_range_def max_wall_def usec_per_day_def)

theorem parse_entry_date_precedence_witness:
  "parse_entry_date sample_env
      (blank\<lparr>published_parsed := Some [2024, 2, 30, 0, 0, 0, 0, 1, 0],
             published := Some ''yesterday-ish'',
             date := Some ''2024-01-01T14:00:00+02:00''\<rparr>) = Some t_noon
   \<and> utcoffset t_noon = 0
   \<and> structured_time (Some [2024, 1, 1, 12, 0, 0, 0, 1, 0]) = Some t_noon
   \<and> t_noon = utc (civil 2024 1 1 12 0 0)
   \<and> dateparser_parse sample_env ''2024-01-01 12:00:00'' = Some (Naive 63839707200000000)
   \<and> lenient_time sample_env (Some ''2024-01-01 12:00:00'') = Some (utc 63839707200000000)
   \<and> dateparser_parse sample_env ''2024-01-01T14:00:00+02:00''
       = Some (Aware \<lparr>wall = 63839714400000000, utcoffset = 7200000000\<rparr>)
   \<and> lenient_time sample_env (Some ''2024-01-01T14:00:00+02:00'') = Some (utc 63839707200000000)"
proof -
  let ?e = "blank\<lparr>published_parsed := Some [2024, 2, 30, 0, 0, 0, 0, 1, 0],
             published := Some ''yesterday-ish'',
             date := Some ''2024-01-01T14:00:00+02:00''\<rparr>"
  let ?a = "\<lparr>wall = 63839714400000000, utcoffset = 7200000000\<rparr>"
  note T = parse_entry_date_precedence [of sample_env ?e]
  note T1 = T [THEN conjunct1]
  note T2 = T [THEN conjunct2, THEN conjunct1, rule_format]
  note T3 = T [THEN conjunct2, THEN conjunct2, THEN conjunct1, rule_format]
  note T4 = T [THEN conjunct2, THEN conjunct2, THEN conjunct2, THEN conjunct1, rule_format]
  note T5 = T [THEN conjunct2, THEN conjunct2, THEN conjunct2, THEN conjunct2, rule_format]
  have naive: "dateparser_parse sample_env ''2024-01-01 12:00:00'' = Some (Naive 63839707200000000)"
    by (simp add: sample_parse_def)
  have aware: "dateparser_parse sample_env ''2024-01-01T14:00:00+02:00'' = Some (Aware ?a)"
    by (simp add: sample_parse_def)
  have inst: "instant ?a = 63839707200000000"
    by (simp add: instant_def)
  have l1: "lenient_time sample_env (Some ''2024-01-01 12:00:00'') = Some (utc 63839707200000000)"
    by (rule T4 [OF _ naive in_range_noon]) simp
  have "lenient_time sample_env (Some ''2024-01-01T14:00:00+02:00'') = Some (utc (instant ?a))"
    by (rule T5 [OF _ aware]) (simp_all add: inst in_range_noon)
  then have l2: "lenient_time sample_env (Some ''2024-01-01T14:00:00+02:00'')
              = Some (utc 63839707200000000)"
    by (simp only: inst)
  have l0: "lenient_time sample_env (Some ''yesterday-ish'') = None"
    by (simp add: lenient_time_def sample_parse_def)
  have ln: "lenient_time sample_env None = None"
    by (simp add: lenient_time_def)
  have sn: "structured_time None = None"
    by (simp add: structured_time_def)
  have r: "parse_entry_date sample_env ?e = Some t_noon"
    by (subst T1) (simp add: blank_def structured_feb30 sn l0 ln l2 t_noon_def)
  have off: "utcoffset t_noon = 0"
    by (rule T2 [OF r])
  have civ: "t_noon = utc (civil 2024 1 1 12 0 0)"
    by (rule T3 [OF structured_noon])
  show ?thesis
    by (intro conjI r off structured_noon civ naive l1 aware l2)
qed

section \<open>Properties of the classifier and the loop\<close>

lemma process_entries_fst:
  "fst (process_entries E now ls acc es)
     = fst acc @ map (make_item E now) (filter (entry_is_new E now ls) es)"
  by (induction es arbitrary: acc) (simp_all add: process_entry_def entry_is_new_def Let_def)

lemma process_entries_snd:
  "snd (process_entries E now ls acc es)
     = snd acc ++ map_of (rev (map (\<lambda>e. (parse_entry_id e, JStr (stamp E now e))) es))"
  by (induction es arbitrary: acc) (simp_all add: process_entry_def Let_def)

text \<open>
  Claim C1. The items \<^verbatim>\<open>process_feed\<close> collects are those of the entries the classifier
  calls new, tested against the seen-state as loaded. An entry whose identity is not in it
  is new when it has no timestamp, and otherwise exactly when its timestamp is at or after
  \<open>now - 24h\<close>. An entry whose identity is in it is not new when it has no timestamp or
  when the stored value cannot be parsed, and otherwise is new exactly when its timestamp
  is strictly after the stored one and at or after \<open>now - 24h\<close>.
\<close>

theorem novelty_decision_table:
  "fst (process_entries E now last_seen (new_items, upd) es)
     = new_items @ map (make_item E now) (filter (entry_is_new E now last_seen) es)
   \<and> (last_seen (parse_entry_id e) = None \<longrightarrow> parse_entry_date E e = None
        \<longrightarrow> entry_is_new E now last_seen e)
   \<and> (last_seen (parse_entry_id e) = None \<longrightarrow> parse_entry_date E e = Some t
        \<longrightarrow> entry_is_new E now last_seen e = (instant now - DELTA \<le> instant t))
   \<and> (last_seen (parse_entry_id e) = Some s \<longrightarrow> parse_entry_date E e = None
        \<longrightarrow> \<not> entry_is_new E now last_seen e)
   \<and> (last_seen (parse_entry_id e) = Some s \<longrightarrow> stored_dt E s = None
        \<longrightarrow> \<not> entry_is_new E now last_seen e)
   \<and> (last_seen (parse_entry_id e) = Some s \<longrightarrow> stored_dt E s = Some sd
        \<longrightarrow> parse_entry_date E e = Some t
        \<longrightarrow> entry_is_new E now last_seen e
              = (instant sd < instant t \<and> instant now - DELTA \<le> instant t))"
proof (intro conjI impI)
  show "fst (process_entries E now last_seen (new_items, upd) es)
     = new_items @ map (make_item E now) (filter (entry_is_new E now last_seen) es)"
    by (simp add: process_entries_fst)
qed (simp_all add: entry_is_new_def is_new_def instant_def utc_def split: option.splits)

lemma instants [simp]:
  "instant t_noon = 63839707200000000" "instant t_six = 63839685600000000"
  "instant t_now = 63839750400000000" "instant t_later = 63839750401000000"
  by (simp_all add: instant_def utc_def t_noon_def t_six_def t_now_def t_later_def)

lemma stored_six: "stored_dt sample_env (JStr ''2024-01-01T06:00:00+00:00'') = Some t_six"
  by (simp add: stored_dt_def sample_parse_def)

lemma stored_noon: "stored_dt sample_env (JStr ''2024-01-01T12:00:00+00:00'') = Some t_noon"
  by (simp add: stored_dt_def sample_parse_def)

lemma stored_bad: "stored_dt sample_env (JStr ''not a date'') = None"
  by (simp add: stored_dt_def sample_parse_def)

theorem novelty_decision_table_witness:
  "entry_is_new sample_env t_now Map.empty entry_t
   \<and> entry_is_new sample_env t_now Map.empty entry_a
   \<and> entry_is_new sample_env (utc (instant t_noon + DELTA)) Map.empty entry_a
   \<and> \<not> entry_is_new sample_env (utc (instant t_noon + DELTA + 1)) Map.empty entry_a
   \<and> \<not> entry_is_new sample_env t_now [''T||'' \<mapsto> JStr ''2024-01-01T06:00:00+00:00''] entry_t
   \<and> \<not> entry_is_new sample_env t_now [''urn:a'' \<mapsto> JStr ''not a date''] entry_a
   \<and> entry_is_new sample_env t_now [''urn:a'' \<mapsto> JStr ''2024-01-01T06:00:00+00:00''] entry_a
   \<and> \<not> entry_is_new sample_env t_now [''urn:a'' \<mapsto> JStr ''2024-01-01T12:00:00+00:00''] entry_a
   \<and> fst (process_entries sample_env t_now [''urn:a'' \<mapsto> JStr ''2024-01-01T12:00:00+00:00'']
            ([], Map.empty) [entry_a, entry_t])
       = [make_item sample_env t_now entry_t]"
proof -
  let ?six = "[''urn:a'' \<mapsto> JStr ''2024-01-01T06:00:00+00:00'']"
  let ?noon = "[''urn:a'' \<mapsto> JStr ''2024-01-01T12:00:00+00:00'']"
  let ?bad = "[''urn:a'' \<mapsto> JStr ''not a date'']"
  let ?tt = "[''T||'' \<mapsto> JStr ''2024-01-01T06:00:00+00:00'']"
  have 1: "entry_is_new sample_env t_now Map.empty entry_t"
    using novelty_decision_table [of sample_env t_now Map.empty "[]" Map.empty "[]" entry_t]
    by (simp add: entry_t_date)
  have 2: "entry_is_new sample_env t_now Map.empty entry_a"
    using novelty_decision_table [of sample_env t_now Map.empty "[]" Map.empty "[]" entry_a t_noon]
    by (simp add: entry_a_date DELTA_def)
  have 3: "entry_is_new sample_env (utc (instant t_noon + DELTA)) Map.empty entry_a"
    using novelty_decision_table [of sample_env "utc (instant t_noon + DELTA)" Map.empty "[]"
        Map.empty "[]" entry_a t_noon]
    by (simp add: entry_a_date instant_def utc_def)
  have 4: "\<not> entry_is_new sample_env (utc (instant t_noon + DELTA + 1)) Map.empty entry_a"
    using novelty_decision_table [of sample_env "utc (instant t_noon + DELTA + 1)" Map.empty "[]"
        Map.empty "[]" entry_a t_noon]
    by (simp add: entry_a_date instant_def utc_def)
  have 5: "\<not> entry_is_new sample_env t_now ?tt entry_t"
    using novelty_decision_table [of sample_env t_now ?tt "[]" Map.empty "[]" entry_t _
        "JStr ''2024-01-01T06:00:00+00:00''"]
    by (simp add: entry_t_date sample_ids)
  have 6: "\<not> entry_is_new sample_env t_now ?bad entry_a"
    using novelty_decision_table [of sample_env t_now ?bad "[]" Map.empty "[]" entry_a _
        "JStr ''not a date''"]
    by (simp add: stored_bad sample_ids)
  have 7: "entry_is_new sample_env t_now ?six entry_a"
    using novelty_decision_table [of sample_env t_now ?six "[]" Map.empty "[]" entry_a t_noon
        "JStr ''2024-01-01T06:00:00+00:00''" t_six]
    by (simp add: stored_six sample_ids entry_a_date DELTA_def)
  have 8: "\<not> entry_is_new sample_env t_now ?noon entry_a"
    using novelty_decision_table [of sample_env t_now ?noon "[]" Map.empty "[]" entry_a t_noon
        "JStr ''2024-01-01T12:00:00+00:00''" t_noon]
    by (simp add: stored_noon sample_ids entry_a_date DELTA_def)
  have 9: "entry_is_new sample_env t_now ?noon entry_t"
    using novelty_decision_table [of sample_env t_now ?noon "[]" Map.empty "[]" entry_t]
    by (simp add: entry_t_date sample_ids)
  have 10: "fst (process_entries sample_env t_now ?noon ([], Map.empty) [entry_a, entry_t])
       = [make_item sample_env t_now entry_t]"
    using novelty_decision_table [of sample_env t_now ?noon "[]" Map.empty "[entry_a, entry_t]"]
      8 9
    by simp
  show ?thesis
    by (intro conjI 1 2 3 4 5 6 7 8 10)
qed

section \<open>Properties of one run\<close>

lemma load_last_seen_loaded: "load_last_seen w p = Inr (loaded w p)"
  by (simp add: loaded_def load_last_seen_def split: sum.splits)

lemma loaded_printed [simp]: "loaded (w\<lparr>printed := ms\<rparr>) p = loaded w p"
  by (simp add: loaded_def load_last_seen_def read_json_def)

lemma loaded_print [simp]: "loaded (print m w) p = loaded w p"
  by (simp add: print_def)

lemma config_paths:
  "map_of OUTFILES k = Some outfn \<Longrightarrow> map_of LAST_SEEN_FILES k' = Some p \<Longrightarrow> outfn \<noteq> p"
  by (auto simp: OUTFILES_def LAST_SEEN_FILES_def split: if_splits)

lemma configured:
  "(k, url) \<in> set FEEDS \<Longrightarrow> \<exists>outfn p. map_of OUTFILES k = Some outfn \<and> map_of LAST_SEEN_FILES k = Some p"
  by (auto simp: FEEDS_def OUTFILES_def LAST_SEEN_FILES_def)

lemma process_feed_fetch_failed:
  "urlopen E url = None \<Longrightarrow>
   process_feed E c k url w
     = (Inr False, print (Skipping k) (print (FailedFetch url) (print (Processing k url) w)))"
  by (simp add: process_feed_def safe_fetch_def Let_def)

lemma write_output_eq:
  "write_output E c k url outfn its w =
     (if denied w outfn then (Inl (OSError outfn), w)
      else (Inr (),
            print (if its \<noteq> [] then Wrote (length its) outfn else NoNewItems k outfn)
              (w\<lparr>files := (files w)(outfn \<mapsto>
                   Document (build_rss_xml E (''daily_'' @ k) url (build_date c) its))\<rparr>)))"
  by (simp add: write_output_def write_file_def and_then_def)

lemma process_feed_fetched:
  assumes "urlopen E url = Some raw"
    and "map_of LAST_SEEN_FILES k = Some p"
    and "map_of OUTFILES k = Some outfn"
  shows "process_feed E c k url w =
     (let w1 = print (Processing k url) w;
          r = process_entries E (utc (now_utc c)) (loaded w p) ([], loaded w p)
                (feedparser_parse E raw);
          doc = Document (build_rss_xml E (''daily_'' @ k) url (build_date c) (fst r));
          w2 = print (if fst r \<noteq> [] then Wrote (length (fst r)) outfn else NoNewItems k outfn)
                 (w1\<lparr>files := (files w)(outfn \<mapsto> doc)\<rparr>)
      in if denied w outfn then (Inl (OSError outfn), w1)
         else if denied w p then (Inl (OSError p), w2)
         else (Inr True, w2\<lparr>files := (files w)(outfn \<mapsto> doc, p \<mapsto> Seen (snd r))\<rparr>))"
  using assms
  by (simp add: process_feed_def safe_fetch_def Let_def and_then_def lookup_def
        load_last_seen_loaded write_output_eq save_last_seen_def write_file_def print_def)


lemma entries_of_fetched: "urlopen E url = Some raw \<Longrightarrow> entries_of E url = feedparser_parse E raw"
  by (simp add: entries_of_def)

lemma process_feed_outcome:
  assumes "urlopen E url = Some raw"
    and "map_of LAST_SEEN_FILES k = Some p"
    and "map_of OUTFILES k = Some outfn"
  shows "fst (process_feed E c k url w)
           = (if denied w outfn then Inl (OSError outfn)
              else if denied w p then Inl (OSError p) else Inr True)"
  by (simp add: process_feed_fetched [OF assms] Let_def)

lemma process_feed_files:
  assumes "urlopen E url = Some raw"
    and "map_of LAST_SEEN_FILES k = Some p"
    and "map_of OUTFILES k = Some outfn"
  shows "files (snd (process_feed E c k url w))
           = (let doc = Document (build_rss_xml E (''daily_'' @ k) url (build_date c)
                          (map (make_item E (utc (now_utc c))) (novel E c w p url)));
                  m = loaded w p ++ map_of (rev (map (\<lambda>e. (parse_entry_id e,
                          JStr (stamp E (utc (now_utc c)) e))) (entries_of E url)))
              in if denied w outfn then files w
                 else if denied w p then (files w)(outfn \<mapsto> doc)
                 else (files w)(outfn \<mapsto> doc, p \<mapsto> Seen m))"
  by (simp add: process_feed_fetched [OF assms] Let_def print_def process_entries_fst
        process_entries_snd novel_def entries_of_fetched [OF assms(1)])

lemma process_feed_denied [simp]: "denied (snd (process_feed E c k url w)) = denied w"
  by (simp add: process_feed_def safe_fetch_def Let_def and_then_def lookup_def
        load_last_seen_loaded write_output_eq save_last_seen_def write_file_def print_def
        split: option.splits)



lemma sample_urlopen:
  "urlopen sample_env bd_url = Some ''bd''" "urlopen sample_env master_url = Some ''master''"
  by (simp_all add: sample_env_def bd_url_def master_url_def)

lemma sample_feeds:
  "feedparser_parse sample_env ''bd'' = [entry_a, entry_b, entry_t]"
  "feedparser_parse sample_env ''master'' = []"
  by (simp_all add: sample_env_def)

lemma FEEDS_urls: "FEEDS = [(''bd'', bd_url), (''master'', master_url)]"
  by (simp add: FEEDS_def bd_url_def master_url_def)

lemma sample_now [simp]: "utc (now_utc sample_clock) = t_now" "utc (now_utc later_clock) = t_later"
  by (simp_all add: sample_clock_def later_clock_def t_now_def t_later_def)

lemma loaded_fresh [simp]: "loaded fresh_world p = Map.empty"
  by (simp add: loaded_def load_last_seen_def fresh_world_def)

lemma instant_utc [simp]: "instant (utc x) = x"
  by (simp add: instant_def utc_def)

lemma new_unseen:
  "entry_is_new sample_env t_now Map.empty entry_a"
  "entry_is_new sample_env t_now Map.empty entry_b"
  "entry_is_new sample_env t_now Map.empty entry_t"
  by (simp_all add: entry_is_new_def is_new_def entry_a_date entry_b_date entry_t_date
        DELTA_def)


section \<open>Stamps in the seen-state\<close>



lemma process_feed_success:
  assumes "fst (process_feed E c k url w) = Inr True"
  shows "\<exists>raw. urlopen E url = Some raw"
proof (cases "urlopen E url")
  case None
  then show ?thesis
    using assms by (simp add: process_feed_fetch_failed)
qed simp

lemma stamps_lookup:
  assumes "e \<in> set es"
  shows "\<exists>e'\<in>set es. parse_entry_id e' = parse_entry_id e
           \<and> (m ++ map_of (rev (map (\<lambda>e. (parse_entry_id e, JStr (stamp E now e))) es)))
                (parse_entry_id e) = Some (JStr (stamp E now e'))"
proof -
  let ?xs = "rev (map (\<lambda>e. (parse_entry_id e, JStr (stamp E now e))) es)"
  from assms have "parse_entry_id e \<in> fst ` set ?xs"
    by force
  then obtain v where v: "map_of ?xs (parse_entry_id e) = Some v"
    by (metis map_of_eq_None_iff not_Some_eq)
  then have "(parse_entry_id e, v) \<in> set ?xs"
    by (rule map_of_SomeD)
  then obtain e' where "e' \<in> set es" "parse_entry_id e' = parse_entry_id e"
    "v = JStr (stamp E now e')"
    by auto
  with v show ?thesis
    by (auto simp: map_add_Some_iff)
qed

lemma stamps_lookup_distinct:
  assumes "e \<in> set es" and "distinct (map parse_entry_id es)"
  shows "(m ++ map_of (rev (map (\<lambda>e. (parse_entry_id e, JStr (stamp E now e))) es)))
           (parse_entry_id e) = Some (JStr (stamp E now e))"
proof -
  let ?xs = "rev (map (\<lambda>e. (parse_entry_id e, JStr (stamp E now e))) es)"
  have "map fst ?xs = rev (map parse_entry_id es)"
    by (simp add: rev_map comp_def)
  with assms(2) have "distinct (map fst ?xs)"
    by simp
  moreover from assms(1) have "(parse_entry_id e, JStr (stamp E now e)) \<in> set ?xs"
    by force
  ultimately have "map_of ?xs (parse_entry_id e) = Some (JStr (stamp E now e))"
    by (rule map_of_is_SomeI)
  then show ?thesis
    by (simp add: map_add_Some_iff)
qed

lemma stamp_reading:
  "stamp E now e =
     (case parse_entry_date E e of
        Some d \<Rightarrow> isoformat E d
      | None \<Rightarrow> first_nonempty [published e, updated e] (isoformat E now))"
  by (cases "published e"; cases "updated e")
     (simp_all add: stamp_def or_else_def truthy_def get_default_def split: option.splits)


lemma process_feed_saved:
  assumes "(k, url) \<in> set FEEDS" and "fst (process_feed E c k url w) = Inr True"
  shows "\<exists>p. map_of LAST_SEEN_FILES k = Some p
           \<and> files (snd (process_feed E c k url w)) p
               = Some (Seen (loaded w p ++ map_of (rev (map (\<lambda>e. (parse_entry_id e,
                          JStr (stamp E (utc (now_utc c)) e))) (entries_of E url)))))"
proof -
  from assms(1) obtain outfn p
    where o: "map_of OUTFILES k = Some outfn" and p: "map_of LAST_SEEN_FILES k = Some p"
    using configured by blast
  from assms(2) obtain raw where raw: "urlopen E url = Some raw"
    using process_feed_success by blast
  from assms(2) have "\<not> denied w outfn" "\<not> denied w p"
    by (auto simp: process_feed_outcome [OF raw p o] split: if_splits)
  then have "files (snd (process_feed E c k url w)) p
               = Some (Seen (loaded w p ++ map_of (rev (map (\<lambda>e. (parse_entry_id e,
                          JStr (stamp E (utc (now_utc c)) e))) (entries_of E url)))))"
    by (simp add: process_feed_files [OF raw p o] Let_def)
  with p show ?thesis
    by blast
qed

text \<open>
  Claim C2. Every turn of the loop, whatever the verdict, stores a stamp under the
  identity of its entry in the updated mapping: the ISO form of the resolved timestamp,
  else the first non-empty of the published and updated strings, else the ISO form of
  \<open>now\<close>. So after the loop every identity met has the stamp of an entry that carries it
  (of the entry itself when identities are distinct), and after a successful run of a
  configured feed the saved file holds it.
\<close>

theorem stamp_always_recorded:
  "snd (process_entry E now last_seen (new_items, upd) e)
     = upd(parse_entry_id e \<mapsto> JStr (stamp E now e))
   \<and> stamp E now e =
       (case parse_entry_date E e of
          Some d \<Rightarrow> isoformat E d
        | None \<Rightarrow> first_nonempty [published e, updated e] (isoformat E now))
   \<and> (e \<in> set es \<longrightarrow>
        (\<exists>e'\<in>set es. parse_entry_id e' = parse_entry_id e
           \<and> snd (process_entries E now last_seen (new_items, upd) es) (parse_entry_id e)
               = Some (JStr (stamp E now e'))))
   \<and> (e \<in> set es \<longrightarrow> distinct (map parse_entry_id es) \<longrightarrow>
        snd (process_entries E now last_seen (new_items, upd) es) (parse_entry_id e)
          = Some (JStr (stamp E now e)))
   \<and> ((k, url) \<in> set FEEDS \<longrightarrow> fst (process_feed E c k url w) = Inr True
        \<longrightarrow> e \<in> set (entries_of E url) \<longrightarrow>
        (\<exists>p m. map_of LAST_SEEN_FILES k = Some p
           \<and> files (snd (process_feed E c k url w)) p = Some (Seen m)
           \<and> (\<exists>e'\<in>set (entries_of E url). parse_entry_id e' = parse_entry_id e
                 \<and> m (parse_entry_id e) = Some (JStr (stamp E (utc (now_utc c)) e')))))"
proof (intro conjI impI)
  show "snd (process_entry E now last_seen (new_items, upd) e)
     = upd(parse_entry_id e \<mapsto> JStr (stamp E now e))"
    by (simp add: process_entry_def Let_def)
next
  show "stamp E now e =
       (case parse_entry_date E e of
          Some d \<Rightarrow> isoformat E d
        | None \<Rightarrow> first_nonempty [published e, updated e] (isoformat E now))"
    by (rule stamp_reading)
next
  assume "e \<in> set es"
  then show "\<exists>e'\<in>set es. parse_entry_id e' = parse_entry_id e
           \<and> snd (process_entries E now last_seen (new_items, upd) es) (parse_entry_id e)
               = Some (JStr (stamp E now e'))"
    using stamps_lookup [of e es upd E now] by (simp add: process_entries_snd)
next
  assume "e \<in> set es" "distinct (map parse_entry_id es)"
  then show "snd (process_entries E now last_seen (new_items, upd) es) (parse_entry_id e)
          = Some (JStr (stamp E now e))"
    using stamps_lookup_distinct [of e es upd E now] by (simp add: process_entries_snd)
next
  assume a: "(k, url) \<in> set FEEDS" "fst (process_feed E c k url w) = Inr True"
    "e \<in> set (entries_of E url)"
  from process_feed_saved [OF a(1,2)] obtain p where p: "map_of LAST_SEEN_FILES k = Some p"
    and f: "files (snd (process_feed E c k url w)) p
               = Some (Seen (loaded w p ++ map_of (rev (map (\<lambda>e. (parse_entry_id e,
                          JStr (stamp E (utc (now_utc c)) e))) (entries_of E url)))))"
    by blast
  show "\<exists>p m. map_of LAST_SEEN_FILES k = Some p
           \<and> files (snd (process_feed E c k url w)) p = Some (Seen m)
           \<and> (\<exists>e'\<in>set (entries_of E url). parse_entry_id e' = parse_entry_id e
                 \<and> m (parse_entry_id e) = Some (JStr (stamp E (utc (now_utc c)) e')))"
  proof (intro exI conjI)
    show "map_of LAST_SEEN_FILES k = Some p"
      by (rule p)
    show "files (snd (process_feed E c k url w)) p
               = Some (Seen (loaded w p ++ map_of (rev (map (\<lambda>e. (parse_entry_id e,
                          JStr (stamp E (utc (now_utc c)) e))) (entries_of E url)))))"
      by (rule f)
    show "\<exists>e'\<in>set (entries_of E url). parse_entry_id e' = parse_entry_id e
        \<and> (loaded w p ++ map_of (rev (map (\<lambda>e. (parse_entry_id e,
                          JStr (stamp E (utc (now_utc c)) e))) (entries_of E url))))
            (parse_entry_id e) = Some (JStr (stamp E (utc (now_utc c)) e'))"
      by (rule stamps_lookup [OF a(3)])
  qed
qed


lemma entry_t_fields: "published entry_t = None" "updated entry_t = None"
  by (simp_all add: entry_t_def blank_def)

lemma sample_stamps:
  "stamp sample_env t_now entry_a = ''2024-01-01T12:00:00+00:00''"
  "stamp sample_env t_now entry_b = ''2024-01-01T06:00:00+00:00''"
  "stamp sample_env t_now entry_t = ''2024-01-02T00:00:00+00:00''"
  by (simp_all add: stamp_def entry_a_date entry_b_date entry_t_date entry_t_fields
        sample_isoformat_def or_else_def truthy_def t_noon_def t_six_def t_now_def utc_def)

lemma sample_entries_of:
  "entries_of sample_env bd_url = [entry_a, entry_b, entry_t]"
  "entries_of sample_env master_url = []"
  by (simp_all add: entries_of_def sample_urlopen sample_feeds)

lemma fresh_run_ok:
  "fst (process_feed sample_env c ''bd'' bd_url fresh_world) = Inr True"
  by (simp add: process_feed_outcome [OF sample_urlopen(1), of "''bd''" "''last_seen_bd.json''"
        "''daily_bd.xml''"] LAST_SEEN_FILES_def OUTFILES_def fresh_world_def)

theorem stamp_always_recorded_witness:
  "snd (process_entry sample_env t_now Map.empty ([], Map.empty) entry_t)
     = [''T||'' \<mapsto> JStr ''2024-01-02T00:00:00+00:00'']
   \<and> stamp sample_env t_now entry_a = ''2024-01-01T12:00:00+00:00''
   \<and> entry_a \<in> set [entry_a, entry_b, entry_t]
   \<and> (\<exists>e'\<in>set [entry_a, entry_b, entry_t]. parse_entry_id e' = ''urn:a''
        \<and> snd (process_entries sample_env t_now Map.empty ([], Map.empty)
                 [entry_a, entry_b, entry_t]) ''urn:a''
            = Some (JStr (stamp sample_env t_now e')))
   \<and> distinct (map parse_entry_id [entry_a, entry_t])
   \<and> snd (process_entries sample_env t_now Map.empty ([], Map.empty) [entry_a, entry_t])
        ''urn:a'' = Some (JStr ''2024-01-01T12:00:00+00:00'')
   \<and> (''bd'', bd_url) \<in> set FEEDS
   \<and> fst (process_feed sample_env sample_clock ''bd'' bd_url fresh_world) = Inr True
   \<and> entry_t \<in> set (entries_of sample_env bd_url)
   \<and> (\<exists>m. files (snd (process_feed sample_env sample_clock ''bd'' bd_url fresh_world))
              ''last_seen_bd.json'' = Some (Seen m)
          \<and> m ''T||'' = Some (JStr ''2024-01-02T00:00:00+00:00''))"
proof -
  note T1 = stamp_always_recorded [THEN conjunct1]
  note T2 = stamp_always_recorded [THEN conjunct2, THEN conjunct1]
  note T3 = stamp_always_recorded [THEN conjunct2, THEN conjunct2, THEN conjunct1, rule_format]
  note T4 = stamp_always_recorded [THEN conjunct2, THEN conjunct2, THEN conjunct2,
      THEN conjunct1, rule_format]
  note T5 = stamp_always_recorded [THEN conjunct2, THEN conjunct2, THEN conjunct2,
      THEN conjunct2, rule_format]
  have 1: "snd (process_entry sample_env t_now Map.empty ([], Map.empty) entry_t)
     = [''T||'' \<mapsto> JStr ''2024-01-02T00:00:00+00:00'']"
    by (simp add: T1 sample_ids sample_stamps)
  have "stamp sample_env t_now entry_a
          = (case parse_entry_date sample_env entry_a of
               Some d \<Rightarrow> isoformat sample_env d
             | None \<Rightarrow> first_nonempty [published entry_a, updated entry_a]
                         (isoformat sample_env t_now))"
    by (rule T2)
  then have 2: "stamp sample_env t_now entry_a = ''2024-01-01T12:00:00+00:00''"
    by (simp add: entry_a_date sample_isoformat_def)
  have mem_a: "entry_a \<in> set [entry_a, entry_b, entry_t]" "entry_a \<in> set [entry_a, entry_t]"
    by simp_all
  have "\<exists>e'\<in>set [entry_a, entry_b, entry_t]. parse_entry_id e' = parse_entry_id entry_a
           \<and> snd (process_entries sample_env t_now Map.empty ([], Map.empty)
                    [entry_a, entry_b, entry_t]) (parse_entry_id entry_a)
               = Some (JStr (stamp sample_env t_now e'))"
    by (rule T3 [OF mem_a(1)])
  then have 3: "\<exists>e'\<in>set [entry_a, entry_b, entry_t]. parse_entry_id e' = ''urn:a''
        \<and> snd (process_entries sample_env t_now Map.empty ([], Map.empty)
                 [entry_a, entry_b, entry_t]) ''urn:a''
            = Some (JStr (stamp sample_env t_now e'))"
    by (simp only: sample_ids)
  have d: "distinct (map parse_entry_id [entry_a, entry_t])"
    by (simp add: sample_ids)
  have "snd (process_entries sample_env t_now Map.empty ([], Map.empty) [entry_a, entry_t])
          (parse_entry_id entry_a) = Some (JStr (stamp sample_env t_now entry_a))"
    by (rule T4 [OF mem_a(2) d])
  then have 4: "snd (process_entries sample_env t_now Map.empty ([], Map.empty)
                   [entry_a, entry_t]) ''urn:a'' = Some (JStr ''2024-01-01T12:00:00+00:00'')"
    by (simp only: sample_ids sample_stamps)
  have bd: "(''bd'', bd_url) \<in> set FEEDS"
    by (simp add: FEEDS_urls)
  have ok: "fst (process_feed sample_env sample_clock ''bd'' bd_url fresh_world) = Inr True"
    by (rule fresh_run_ok)
  have mem: "entry_t \<in> set (entries_of sample_env bd_url)"
    by (simp add: sample_entries_of)
  from T5 [OF bd ok mem]
  obtain p m e' where "map_of LAST_SEEN_FILES ''bd'' = Some p"
    and "files (snd (process_feed sample_env sample_clock ''bd'' bd_url fresh_world)) p
           = Some (Seen m)"
    and "e' \<in> set (entries_of sample_env bd_url)"
    and "parse_entry_id e' = parse_entry_id entry_t"
    and "m (parse_entry_id entry_t) = Some (JStr (stamp sample_env (utc (now_utc sample_clock)) e'))"
    by blast
  then have 5: "\<exists>m. files (snd (process_feed sample_env sample_clock ''bd'' bd_url fresh_world))
              ''last_seen_bd.json'' = Some (Seen m)
          \<and> m ''T||'' = Some (JStr ''2024-01-02T00:00:00+00:00'')"
    by (auto simp: LAST_SEEN_FILES_def sample_entries_of sample_ids sample_stamps)
  show ?thesis
    by (intro conjI 1 2 mem_a(1) 3 d 4 bd ok mem 5)
qed

section \<open>The seen-state only grows\<close>








section \<open>Loading the seen-state\<close>

lemma load_corrupt:
  "files w path = None \<or> files w path = Some Unreadable \<or> files w path = Some Garbage
     \<or> files w path = Some (Document d)
   \<Longrightarrow> load_last_seen w path = Inr Map.empty"
  by (auto simp: load_last_seen_def read_json_def)

lemma loaded_corrupt:
  "files w path = None \<or> files w path = Some Unreadable \<or> files w path = Some Garbage
   \<Longrightarrow> loaded w path = Map.empty"
  using load_corrupt [of w path] by (auto simp: loaded_def)

lemma out_configured:
  "map_of LAST_SEEN_FILES k = Some p \<Longrightarrow> \<exists>outfn. map_of OUTFILES k = Some outfn"
  by (auto simp: OUTFILES_def LAST_SEEN_FILES_def split: if_splits)

lemma overwrite_removed:
  "outfn \<noteq> p \<Longrightarrow> (f(p := None))(outfn \<mapsto> d, p \<mapsto> s) = f(outfn \<mapsto> d, p \<mapsto> s)"
  by (auto simp: fun_eq_iff)

lemma process_feed_ignores_corrupt:
  assumes p: "map_of LAST_SEEN_FILES k = Some p"
    and bad: "files w p = Some Unreadable \<or> files w p = Some Garbage"
  shows "fst (process_feed E c k url w)
           = fst (process_feed E c k url (w\<lparr>files := (files w)(p := None)\<rparr>))
         \<and> printed (snd (process_feed E c k url w))
             = printed (snd (process_feed E c k url (w\<lparr>files := (files w)(p := None)\<rparr>)))
         \<and> (\<forall>q. q \<noteq> p \<longrightarrow>
               files (snd (process_feed E c k url w)) q
                 = files (snd (process_feed E c k url (w\<lparr>files := (files w)(p := None)\<rparr>))) q)
         \<and> (fst (process_feed E c k url w) = Inr True \<longrightarrow>
               snd (process_feed E c k url w)
                 = snd (process_feed E c k url (w\<lparr>files := (files w)(p := None)\<rparr>)))"
proof -
  let ?w0 = "w\<lparr>files := (files w)(p := None)\<rparr>"
  have l: "loaded w p = Map.empty"
    using bad by (intro loaded_corrupt) blast
  have l0: "loaded ?w0 p = Map.empty"
    by (intro loaded_corrupt) simp
  show ?thesis
  proof (cases "urlopen E url")
    case None
    then show ?thesis
      by (simp add: process_feed_fetch_failed print_def)
  next
    case (Some raw)
    from p obtain outfn where o: "map_of OUTFILES k = Some outfn"
      using out_configured by blast
    have ne: "outfn \<noteq> p"
      using o p by (rule config_paths)
    show ?thesis
      using ne
      by (simp add: process_feed_fetched [OF Some p o] l l0 Let_def print_def overwrite_removed)
  qed
qed

text \<open>
  Claim C7. \<open>load_last_seen\<close> always returns a mapping and raises nothing; the mapping is
  empty when the path does not exist, cannot be read, or does not hold valid JSON. A run
  of \<^verbatim>\<open>process_feed\<close> whose seen-state file is unreadable or invalid returns, prints and
  writes what it would with no such file, and when it succeeds leaves the same world.
\<close>

theorem load_last_seen_never_raises:
  "(\<exists>m. load_last_seen w path = Inr m)
   \<and> (files w path = None \<longrightarrow> load_last_seen w path = Inr Map.empty)
   \<and> (files w path = Some Unreadable \<longrightarrow> load_last_seen w path = Inr Map.empty)
   \<and> (files w path = Some Garbage \<longrightarrow> load_last_seen w path = Inr Map.empty)
   \<and> (files w path = Some (Document d) \<longrightarrow> load_last_seen w path = Inr Map.empty)
   \<and> (map_of LAST_SEEN_FILES k = Some path
        \<longrightarrow> files w path = Some Unreadable \<or> files w path = Some Garbage
        \<longrightarrow> fst (process_feed E c k url w)
              = fst (process_feed E c k url (w\<lparr>files := (files w)(path := None)\<rparr>))
            \<and> printed (snd (process_feed E c k url w))
                = printed (snd (process_feed E c k url (w\<lparr>files := (files w)(path := None)\<rparr>)))
            \<and> (\<forall>q. q \<noteq> path \<longrightarrow>
                  files (snd (process_feed E c k url w)) q
                    = files (snd (process_feed E c k url
                                    (w\<lparr>files := (files w)(path := None)\<rparr>))) q)
            \<and> (fst (process_feed E c k url w) = Inr True \<longrightarrow>
                  snd (process_feed E c k url w)
                    = snd (process_feed E c k url (w\<lparr>files := (files w)(path := None)\<rparr>))))"
proof (intro conjI impI)
  show "\<exists>m. load_last_seen w path = Inr m"
    using load_last_seen_loaded by blast
next
  assume "map_of LAST_SEEN_FILES k = Some path"
    and "files w path = Some Unreadable \<or> files w path = Some Garbage"
  then have *: "fst (process_feed E c k url w)
           = fst (process_feed E c k url (w\<lparr>files := (files w)(path := None)\<rparr>))
         \<and> printed (snd (process_feed E c k url w))
             = printed (snd (process_feed E c k url (w\<lparr>files := (files w)(path := None)\<rparr>)))
         \<and> (\<forall>q. q \<noteq> path \<longrightarrow>
               files (snd (process_feed E c k url w)) q
                 = files (snd (process_feed E c k url (w\<lparr>files := (files w)(path := None)\<rparr>))) q)
         \<and> (fst (process_feed E c k url w) = Inr True \<longrightarrow>
               snd (process_feed E c k url w)
                 = snd (process_feed E c k url (w\<lparr>files := (files w)(path := None)\<rparr>)))"
    by (rule process_feed_ignores_corrupt)
  from * show "fst (process_feed E c k url w)
           = fst (process_feed E c k url (w\<lparr>files := (files w)(path := None)\<rparr>))"
    by (rule conjunct1)
  from * show "printed (snd (process_feed E c k url w))
             = printed (snd (process_feed E c k url (w\<lparr>files := (files w)(path := None)\<rparr>)))"
    by (elim conjE)
  from * show "\<forall>q. q \<noteq> path \<longrightarrow>
               files (snd (process_feed E c k url w)) q
                 = files (snd (process_feed E c k url (w\<lparr>files := (files w)(path := None)\<rparr>))) q"
    by (elim conjE)
  assume "fst (process_feed E c k url w) = Inr True"
  with * show "snd (process_feed E c k url w)
                 = snd (process_feed E c k url (w\<lparr>files := (files w)(path := None)\<rparr>))"
    by (elim conjE impE)
qed (simp_all add: load_corrupt)

lemma garbage_removed: "garbage_world\<lparr>files := (files garbage_world)(''last_seen_bd.json'' := None)\<rparr>
                          = fresh_world"
  by (simp add: garbage_world_def fresh_world_def)

lemma garbage_run_ok:
  "fst (process_feed sample_env c ''bd'' bd_url garbage_world) = Inr True"
  by (simp add: process_feed_outcome [OF sample_urlopen(1), of "''bd''" "''last_seen_bd.json''"
        "''daily_bd.xml''"] LAST_SEEN_FILES_def OUTFILES_def fresh_world_def garbage_world_def)

theorem load_last_seen_never_raises_witness:
  "files fresh_world ''last_seen_bd.json'' = None
   \<and> load_last_seen fresh_world ''last_seen_bd.json'' = Inr Map.empty
   \<and> files unreadable_world ''last_seen_bd.json'' = Some Unreadable
   \<and> load_last_seen unreadable_world ''last_seen_bd.json'' = Inr Map.empty
   \<and> files garbage_world ''last_seen_bd.json'' = Some Garbage
   \<and> load_last_seen garbage_world ''last_seen_bd.json'' = Inr Map.empty
   \<and> map_of LAST_SEEN_FILES ''bd'' = Some ''last_seen_bd.json''
   \<and> fst (process_feed sample_env sample_clock ''bd'' bd_url garbage_world) = Inr True
   \<and> snd (process_feed sample_env sample_clock ''bd'' bd_url garbage_world)
       = snd (process_feed sample_env sample_clock ''bd'' bd_url fresh_world)"
proof -
  note T = load_last_seen_never_raises
  have f: "files fresh_world ''last_seen_bd.json'' = None"
    by (simp add: fresh_world_def)
  have u: "files unreadable_world ''last_seen_bd.json'' = Some Unreadable"
    by (simp add: unreadable_world_def)
  have g: "files garbage_world ''last_seen_bd.json'' = Some Garbage"
    by (simp add: garbage_world_def)
  have 1: "load_last_seen fresh_world ''last_seen_bd.json'' = Inr Map.empty"
    using T [of fresh_world "''last_seen_bd.json''"] f by blast
  have 2: "load_last_seen unreadable_world ''last_seen_bd.json'' = Inr Map.empty"
    using T [of unreadable_world "''last_seen_bd.json''"] u by blast
  have 3: "load_last_seen garbage_world ''last_seen_bd.json'' = Inr Map.empty"
    using T [of garbage_world "''last_seen_bd.json''"] g by blast
  have p: "map_of LAST_SEEN_FILES ''bd'' = Some ''last_seen_bd.json''"
    by (simp add: LAST_SEEN_FILES_def)
  have ok: "fst (process_feed sample_env sample_clock ''bd'' bd_url garbage_world) = Inr True"
    by (rule garbage_run_ok)
  have "snd (process_feed sample_env sample_clock ''bd'' bd_url garbage_world)
       = snd (process_feed sample_env sample_clock ''bd'' bd_url
           (garbage_world\<lparr>files := (files garbage_world)(''last_seen_bd.json'' := None)\<rparr>))"
    using T [THEN conjunct2, THEN conjunct2, THEN conjunct2, THEN conjunct2, THEN conjunct2,
        rule_format, OF p, where w = garbage_world and E = sample_env and c = sample_clock
        and url = bd_url] g ok
    by blast
  then have 4: "snd (process_feed sample_env sample_clock ''bd'' bd_url garbage_world)
       = snd (process_feed sample_env sample_clock ''bd'' bd_url fresh_world)"
    by (simp only: garbage_removed)
  show ?thesis
    by (intro conjI f 1 u 2 g 3 p ok 4)
qed

section \<open>The fields of an item\<close>

lemma days_before_year_bounds:
  assumes "1 \<le> y" and "y \<le> 9999"
  shows "0 \<le> days_before_year y"
    and "days_before_year y + (if is_leap y then 366 else 365) \<le> 3652059"
proof -
  define x where "x = y - 1"
  have x: "0 \<le> x" "x \<le> 9998"
    using assms by (simp_all add: x_def)
  have d4: "x div 4 \<le> 9998 div 4" and d400: "x div 400 \<le> 9998 div 400"
    using x(2) by (intro zdiv_mono1; simp)+
  have d100: "0 \<le> x div 100" "x div 100 \<le> x div 4" and p400: "0 \<le> x div 400"
    using x(1) by (simp_all add: zdiv_mono2)
  have eq: "days_before_year y = x * 365 + x div 4 - x div 100 + x div 400"
    by (simp add: days_before_year_def x_def)
  from x d100 p400 show "0 \<le> days_before_year y"
    unfolding eq by linarith
  show "days_before_year y + (if is_leap y then 366 else 365) \<le> 3652059"
  proof (cases "y = 9999")
    case True
    then show ?thesis
      by (simp add: days_before_year_def is_leap_def)
  next
    case False
    with assms(2) have "x \<le> 9997"
      by (simp add: x_def)
    with d4 d400 d100 have "x * 365 + x div 4 - x div 100 + x div 400 \<le> 3651428"
      by simp
    then show ?thesis
      unfolding eq by simp
  qed
qed

lemma days_before_month_bounds:
  assumes "1 \<le> m" and "m \<le> 12" and "1 \<le> d" and "d \<le> days_in_month y m"
  shows "0 \<le> days_before_month y m"
    and "days_before_month y m + d \<le> (if is_leap y then 366 else 365)"
proof -
  from assms(1,2) have "m = 1 \<or> m = 2 \<or> m = 3 \<or> m = 4 \<or> m = 5 \<or> m = 6 \<or> m = 7 \<or> m = 8
      \<or> m = 9 \<or> m = 10 \<or> m = 11 \<or> m = 12"
    by arith
  then show "0 \<le> days_before_month y m"
    by (elim disjE) (simp_all add: days_before_month_def days_in_month_def)
  from \<open>m = 1 \<or> _\<close> assms(4)
  show "days_before_month y m + d \<le> (if is_leap y then 366 else 365)"
    by (elim disjE) (simp_all add: days_before_month_def days_in_month_def split: if_splits)
qed

lemma datetime_utc_in_range:
  assumes "datetime_utc a = Some dt"
  shows "in_range (instant dt)"
proof -
  define y m d h mi s where "y = a ! 0" and "m = a ! 1" and "d = a ! 2"
    and "h = nth_or a 3 0" and "mi = nth_or a 4 0" and "s = nth_or a 5 0"
  from assms have v: "1 \<le> y" "y \<le> 9999" "1 \<le> m" "m \<le> 12" "1 \<le> d" "d \<le> days_in_month y m"
    "0 \<le> h" "h \<le> 23" "0 \<le> mi" "mi \<le> 59" "0 \<le> s" "s \<le> 59"
    and dt: "dt = utc (civil y m d h mi s)"
    by (auto simp: datetime_utc_def Let_def y_def m_def d_def h_def mi_def s_def
          split: if_splits)
  from days_before_year_bounds [OF v(1,2)] days_before_month_bounds [OF v(3,4,5,6)] v(5)
  have o: "1 \<le> ymd2ord y m d" "ymd2ord y m d \<le> 3652059"
    by (auto simp: ymd2ord_def split: if_splits)
  from o v(7-12) have "0 \<le> civil y m d h mi s" "civil y m d h mi s < max_wall"
    by (simp_all add: civil_def max_wall_def usec_per_day_def)
  then show ?thesis
    by (simp add: dt in_range_def)
qed

lemma from_struct_in_range: "from_struct vs = Some d \<Longrightarrow> in_range (instant d)"
  by (induction vs) (auto split: if_splits option.splits dest: datetime_utc_in_range)

lemma from_strings_in_range: "from_strings E vs = Some d \<Longrightarrow> in_range (instant d)"
  by (induction vs)
     (auto simp: parse_utc_def astimezone_utc_def split: if_splits option.splits)

lemma parse_entry_date_in_range:
  assumes "parse_entry_date E e = Some d"
  shows "in_range (instant d)"
proof (cases "from_struct [published_parsed e, updated_parsed e]")
  case None
  with assms have "from_strings E [published e, updated e, pubDate e, date e] = Some d"
    unfolding parse_entry_date_def by simp
  then show ?thesis by (rule from_strings_in_range)
next
  case (Some x)
  with assms have "from_struct [published_parsed e, updated_parsed e] = Some d"
    unfolding parse_entry_date_def by simp
  then show ?thesis by (rule from_struct_in_range)
qed

lemma astimezone_resolved:
  assumes "parse_entry_date E e = Some d"
  shows "astimezone_utc d = Some d"
proof -
  from assms have "utcoffset d = 0" and "in_range (instant d)"
    by (rule parse_entry_date_offset, rule parse_entry_date_in_range)
  then show ?thesis
    by (cases d) (simp add: astimezone_utc_def utc_def instant_def)
qed

lemma parse_entry_id_nonempty: "parse_entry_id e \<noteq> []"
  by (auto simp: parse_entry_id_def truthy_def get_default_def Let_def split: option.splits)

lemma summary_reading:
  "or_else (summary e) (or_else (description e) []) = first_nonempty [summary e, description e] []"
  by (cases "summary e"; cases "description e")
     (simp_all add: or_else_def truthy_def get_default_def)

lemma item_xml_make_item:
  assumes "in_range n"
  shows "item_xml E (make_item E (utc n) e) = item_of_entry E (utc n) e"
proof (cases "parse_entry_date E e")
  case None
  with assms show ?thesis
    by (simp add: item_xml_def make_item_def item_of_entry_def if_truthy_def truthy_def
          get_default_def summary_reading parse_entry_id_nonempty astimezone_utc_def Let_def
          split: option.splits)
next
  case (Some d)
  then show ?thesis
    by (simp add: item_xml_def make_item_def item_of_entry_def if_truthy_def truthy_def
          get_default_def summary_reading parse_entry_id_nonempty astimezone_resolved Let_def
          split: option.splits)
qed

text \<open>
  Claim C9, as amended. Every item of the written document has a guid, the identity of its
  entry, and a pubDate, the ISO form of the resolved timestamp or, for an entry with no
  resolvable date, of \<open>now\<close>; title and link are present exactly when the entry has a
  non-empty one, and description exactly when the entry has a non-empty summary or
  description.
\<close>

theorem item_fields:
  assumes "in_range (now_utc c)"
  shows "item_xml E (make_item E (utc (now_utc c)) e) = item_of_entry E (utc (now_utc c)) e
         \<and> x_guid (item_of_entry E (utc (now_utc c)) e) \<noteq> None
         \<and> x_pubDate (item_of_entry E (utc (now_utc c)) e) \<noteq> None
         \<and> (parse_entry_date E e = None \<longrightarrow>
               x_pubDate (item_of_entry E (utc (now_utc c)) e)
                 = Some (isoformat E (utc (now_utc c))))
         \<and> (urlopen E url = Some raw \<longrightarrow> map_of OUTFILES k = Some outfn
               \<longrightarrow> map_of LAST_SEEN_FILES k = Some p \<longrightarrow> \<not> denied w outfn \<longrightarrow>
               (\<exists>doc. files (snd (process_feed E c k url w)) outfn = Some (Document doc)
                  \<and> items doc = map (item_of_entry E (utc (now_utc c))) (novel E c w p url)))"
proof (intro conjI impI)
  show "item_xml E (make_item E (utc (now_utc c)) e) = item_of_entry E (utc (now_utc c)) e"
    using assms by (rule item_xml_make_item)
next
  assume a: "urlopen E url = Some raw" "map_of OUTFILES k = Some outfn"
    "map_of LAST_SEEN_FILES k = Some p" "\<not> denied w outfn"
  have ne: "outfn \<noteq> p"
    using a(2,3) by (rule config_paths)
  let ?doc = "build_rss_xml E (''daily_'' @ k) url (build_date c)
                (map (make_item E (utc (now_utc c))) (novel E c w p url))"
  have "files (snd (process_feed E c k url w)) outfn = Some (Document ?doc)"
    using ne a(4) by (simp add: process_feed_files [OF a(1) a(3) a(2)] Let_def)
  moreover have "items ?doc = map (item_of_entry E (utc (now_utc c))) (novel E c w p url)"
    using assms by (simp add: build_rss_xml_def item_xml_make_item)
  ultimately show "\<exists>doc. files (snd (process_feed E c k url w)) outfn = Some (Document doc)
                  \<and> items doc = map (item_of_entry E (utc (now_utc c))) (novel E c w p url)"
    by blast
qed (simp_all add: item_of_entry_def)

lemma in_range_sample_now: "in_range (now_utc sample_clock)"
  by (simp add: sample_clock_def in_range_def max_wall_def usec_per_day_def)

lemma sample_novel_fresh:
  "novel sample_env sample_clock fresh_world p bd_url = [entry_a, entry_b, entry_t]"
  by (simp add: novel_def sample_entries_of new_unseen)

lemma sample_items:
  "item_of_entry sample_env t_now entry_a
     = \<lparr>x_title = Some ''A'', x_link = None, x_guid = Some ''urn:a'',
        x_pubDate = Some ''2024-01-01T12:00:00+00:00'', x_description = None\<rparr>"
  "item_of_entry sample_env t_now entry_b
     = \<lparr>x_title = Some ''A'', x_link = None, x_guid = Some ''urn:a'',
        x_pubDate = Some ''2024-01-01T06:00:00+00:00'', x_description = None\<rparr>"
  "item_of_entry sample_env t_now entry_t
     = \<lparr>x_title = Some ''T'', x_link = None, x_guid = Some ''T||'',
        x_pubDate = Some ''2024-01-02T00:00:00+00:00'', x_description = None\<rparr>"
  using sample_stamps
  by (simp_all add: item_of_entry_def sample_ids entry_a_date entry_b_date entry_t_date
        stamp_def entry_t_fields or_else_def truthy_def)
     (simp_all add: entry_a_def entry_b_def entry_t_def blank_def)

lemma sample_build_date: "build_date sample_clock = ''2024-01-02T00:00:00+00:00''"
  by (simp add: sample_clock_def)

lemma sample_item_xml:
  "item_xml sample_env (make_item sample_env t_now e) = item_of_entry sample_env t_now e"
  using item_xml_make_item [OF in_range_sample_now, of sample_env e] by simp

lemma sample_paths:
  "map_of OUTFILES ''bd'' = Some ''daily_bd.xml''"
  "map_of LAST_SEEN_FILES ''bd'' = Some ''last_seen_bd.json''"
  "map_of OUTFILES ''master'' = Some ''daily_master.xml''"
  "map_of LAST_SEEN_FILES ''master'' = Some ''last_seen_master.json''"
  by (simp_all add: OUTFILES_def LAST_SEEN_FILES_def)

lemma fresh_not_denied [simp]: "\<not> denied fresh_world q"
  by (simp add: fresh_world_def)

text \<open>
  Claim C9 as stated fails: the entry with a title only has no resolvable date and no id,
  guid or link, and its item in the written document has a pubDate, the time of the run,
  and a guid.
\<close>

theorem item_fields_counterexample:
  "parse_entry_date sample_env entry_t = None
   \<and> entry_id entry_t = None \<and> guid entry_t = None \<and> link entry_t = None
   \<and> files (snd (process_feed sample_env sample_clock ''bd'' bd_url fresh_world)) ''daily_bd.xml''
       = Some (Document
           \<lparr>channel_title = ''daily_bd'', channel_link = bd_url,
            channel_description = ''Daily feed: daily_bd'',
            lastBuildDate = ''2024-01-02T00:00:00+00:00'',
            items =
              [\<lparr>x_title = Some ''A'', x_link = None, x_guid = Some ''urn:a'',
                 x_pubDate = Some ''2024-01-01T12:00:00+00:00'', x_description = None\<rparr>,
               \<lparr>x_title = Some ''A'', x_link = None, x_guid = Some ''urn:a'',
                 x_pubDate = Some ''2024-01-01T06:00:00+00:00'', x_description = None\<rparr>,
               \<lparr>x_title = Some ''T'', x_link = None, x_guid = Some ''T||'',
                 x_pubDate = Some ''2024-01-02T00:00:00+00:00'', x_description = None\<rparr>]\<rparr>)"
proof -
  have "files (snd (process_feed sample_env sample_clock ''bd'' bd_url fresh_world)) ''daily_bd.xml''
          = Some (Document (build_rss_xml sample_env (''daily_'' @ ''bd'') bd_url
                    (build_date sample_clock)
                    (map (make_item sample_env (utc (now_utc sample_clock)))
                       (novel sample_env sample_clock fresh_world ''last_seen_bd.json'' bd_url))))"
    by (simp add: process_feed_files [OF sample_urlopen(1) sample_paths(2) sample_paths(1)]
          Let_def)
  also have "build_rss_xml sample_env (''daily_'' @ ''bd'') bd_url (build_date sample_clock)
                    (map (make_item sample_env (utc (now_utc sample_clock)))
                       (novel sample_env sample_clock fresh_world ''last_seen_bd.json'' bd_url))
      = \<lparr>channel_title = ''daily_bd'', channel_link = bd_url,
            channel_description = ''Daily feed: daily_bd'',
            lastBuildDate = ''2024-01-02T00:00:00+00:00'',
            items = map (item_of_entry sample_env t_now) [entry_a, entry_b, entry_t]\<rparr>"
    by (simp add: build_rss_xml_def sample_novel_fresh sample_build_date sample_item_xml)
  finally show ?thesis
    by (simp add: sample_items entry_t_date) (simp add: entry_t_def blank_def)
qed

theorem item_fields_witness:
  "in_range (now_utc sample_clock)
   \<and> parse_entry_date sample_env entry_t = None
   \<and> item_xml sample_env (make_item sample_env (utc (now_utc sample_clock)) entry_t)
       = \<lparr>x_title = Some ''T'', x_link = None, x_guid = Some ''T||'',
          x_pubDate = Some ''2024-01-02T00:00:00+00:00'', x_description = None\<rparr>
   \<and> x_pubDate (item_of_entry sample_env (utc (now_utc sample_clock)) entry_t)
       = Some (isoformat sample_env (utc (now_utc sample_clock)))
   \<and> urlopen sample_env bd_url = Some ''bd''
   \<and> map_of OUTFILES ''bd'' = Some ''daily_bd.xml''
   \<and> map_of LAST_SEEN_FILES ''bd'' = Some ''last_seen_bd.json''
   \<and> \<not> denied fresh_world ''daily_bd.xml''
   \<and> (\<exists>doc. files (snd (process_feed sample_env sample_clock ''bd'' bd_url fresh_world))
               ''daily_bd.xml'' = Some (Document doc)
          \<and> items doc = map (item_of_entry sample_env t_now) [entry_a, entry_b, entry_t])"
proof -
  note T = item_fields [OF in_range_sample_now]
  have 1: "item_xml sample_env (make_item sample_env (utc (now_utc sample_clock)) entry_t)
       = \<lparr>x_title = Some ''T'', x_link = None, x_guid = Some ''T||'',
          x_pubDate = Some ''2024-01-02T00:00:00+00:00'', x_description = None\<rparr>"
    using T [THEN conjunct1, of sample_env entry_t] by (simp add: sample_items)
  have 2: "x_pubDate (item_of_entry sample_env (utc (now_utc sample_clock)) entry_t)
       = Some (isoformat sample_env (utc (now_utc sample_clock)))"
    by (rule T [THEN conjunct2, THEN conjunct2, THEN conjunct2, THEN conjunct1, rule_format,
        OF entry_t_date])
  have "\<exists>doc. files (snd (process_feed sample_env sample_clock ''bd'' bd_url fresh_world))
               ''daily_bd.xml'' = Some (Document doc)
          \<and> items doc = map (item_of_entry sample_env (utc (now_utc sample_clock)))
                          (novel sample_env sample_clock fresh_world ''last_seen_bd.json'' bd_url)"
    by (rule T [THEN conjunct2, THEN conjunct2, THEN conjunct2, THEN conjunct2, rule_format,
        OF sample_urlopen(1) sample_paths(1) sample_paths(2) fresh_not_denied])
  then have 3: "\<exists>doc. files (snd (process_feed sample_env sample_clock ''bd'' bd_url fresh_world))
               ''daily_bd.xml'' = Some (Document doc)
          \<and> items doc = map (item_of_entry sample_env t_now) [entry_a, entry_b, entry_t]"
    by (simp only: sample_novel_fresh sample_now)
  show ?thesis
    by (intro conjI in_range_sample_now entry_t_date 1 2 sample_urlopen(1) sample_paths(1)
        sample_paths(2) fresh_not_denied 3)
qed

section \<open>A run right after a run\<close>















lemma distinct_env_sel [simp]:
  "urlopen distinct_env = urlopen sample_env"
  "dateparser_parse distinct_env = sample_parse"
  "isoformat distinct_env = sample_isoformat"
  "feedparser_parse distinct_env ''bd'' = [entry_a, entry_t]"
  by (simp_all add: distinct_env_def sample_env_def)





section \<open>The run driver\<close>


lemma writable_process_feed [simp]: "writable (snd (process_feed E c k url w)) = writable w"
  by (simp add: writable_def)















end
